theory Spec2Isabelle
  imports Complex_Main "HOL-Library.Word"
begin

section \<open>Data model\<close>

text \<open>
  The Python exceptions the modelled code can raise: \<open>assert\<close> failures of the
  constructors (with their message), float or int division by zero, and numpy's
  \<open>ValueError\<close> (a slice assignment whose shapes cannot be broadcast, a negative
  array dimension) and \<open>IndexError\<close> (an index outside an array).
\<close>

datatype error = AssertionError string | ZeroDivisionError | ValueError | IndexError

text \<open>
  A pixel buffer is the numpy array \<open>np.zeros((height, width, 3), np.int8)\<close>: a list of
  rows, each row a list of pixels, each pixel three signed 8-bit channels. Arithmetic on
  \<open>8 word\<close> wraps as numpy's \<open>int8\<close> does; \<open>sint\<close> reads the stored value.
\<close>

type_synonym int8 = "8 word"
type_synonym pixel = "int8 \<times> int8 \<times> int8"
type_synonym row = "pixel list"
type_synonym buffer = "row list"

definition rect :: "nat \<Rightarrow> nat \<Rightarrow> buffer \<Rightarrow> bool" where
  \<comment> \<open>the array has shape \<open>(h, w, 3)\<close>\<close>
  "rect h w buf \<longleftrightarrow> length buf = h \<and> list_all (\<lambda>r. length r = w) buf"

section \<open>numpy: basic slicing along the first axis, elementwise addition\<close>

definition norm_index :: "nat \<Rightarrow> int \<Rightarrow> nat" where
  \<comment> \<open>a slice bound \<open>i\<close> on a sequence of length \<open>n\<close>: negative bounds count from the
      end, and every bound is clamped to \<open>[0, n]\<close>\<close>
  "norm_index n i = (if i < 0 then nat (max 0 (int n + i)) else min (nat i) n)"

text \<open>
  A basic slice of an array is a view: a window \<open>(first row, number of rows)\<close> on the
  rows of its base array. Slicing a view gives a narrower window on the same base.
\<close>

type_synonym view = "nat \<times> nat"

definition whole :: "'a list \<Rightarrow> view" where
  "whole xs = (0, length xs)"

definition subview :: "view \<Rightarrow> int option \<Rightarrow> int option \<Rightarrow> view" where
  \<comment> \<open>\<open>v[start:stop]\<close>; \<open>None\<close> is an omitted bound\<close>
  "subview v start stop =
     (let n = snd v;
          lo = (case start of None \<Rightarrow> 0 | Some i \<Rightarrow> norm_index n i);
          hi = (case stop of None \<Rightarrow> n | Some i \<Rightarrow> norm_index n i)
      in (fst v + lo, if lo \<le> hi then hi - lo else 0))"

definition read_view :: "'a list \<Rightarrow> view \<Rightarrow> 'a list" where
  "read_view xs v = take (snd v) (drop (fst v) xs)"

definition write_view :: "'a list \<Rightarrow> view \<Rightarrow> 'a list \<Rightarrow> error + 'a list" where
  \<comment> \<open>\<open>base[view] = vs\<close>: the rows \<open>vs\<close> are broadcast to the view's shape, which needs
      as many rows as the view has, or exactly one row; otherwise numpy raises
      \<open>ValueError\<close> (could not broadcast input array)\<close>
  "write_view xs v vs =
     (if length vs = snd v then
        Inr (take (fst v) xs @ vs @ drop (fst v + snd v) xs)
      else if length vs = 1 then
        Inr (take (fst v) xs @ replicate (snd v) (hd vs) @ drop (fst v + snd v) xs)
      else Inl ValueError)"

definition zeros_like :: "buffer \<Rightarrow> buffer" where
  "zeros_like src = map (map (\<lambda>_. (0, 0, 0))) src"

fun add_pixel :: "pixel \<Rightarrow> pixel \<Rightarrow> pixel" where
  "add_pixel (r1, g1, b1) (r2, g2, b2) = (r1 + r2, g1 + g2, b1 + b2)"

definition add_row :: "row \<Rightarrow> row \<Rightarrow> row" where
  "add_row r1 r2 = map2 add_pixel r1 r2"

definition add_buffer :: "buffer \<Rightarrow> buffer \<Rightarrow> buffer" where
  \<comment> \<open>\<open>a + b\<close> for two arrays of the same shape\<close>
  "add_buffer a b = map2 add_row a b"

section \<open>coghaz.py: corrupt\<close>

definition corrupt :: "buffer \<Rightarrow> int \<Rightarrow> string \<Rightarrow> error + buffer option" where
  \<comment> \<open>\<open>Inr None\<close> is Python's implicit \<open>return None\<close> when \<open>axis\<close> is neither string\<close>
  "corrupt src offset axis =
     (if axis = ''y'' then
        (let offset_pix = zeros_like src in
         case write_view offset_pix
                (subview (whole offset_pix) None (Some (- offset)))
                (read_view src (subview (whole src) (Some offset) None)) of
           Inl e \<Rightarrow> Inl e
         | Inr offset_pix' \<Rightarrow> Inr (Some (add_buffer src offset_pix')))
      else if axis = ''x'' then
        (let offset_pix = zeros_like src in
         case write_view offset_pix
                (subview (subview (whole offset_pix) None None) None (Some (- offset)))
                (read_view src (subview (subview (whole src) None None) (Some offset) None)) of
           Inl e \<Rightarrow> Inl e
         | Inr offset_pix' \<Rightarrow> Inr (Some (add_buffer src offset_pix')))
      else Inr None)"

section \<open>fractal.py: the Gaussian gradient\<close>

text \<open>
  Python floats are modelled as real numbers, \<open>math.exp\<close> as \<open>exp\<close>: rounding, overflow
  and NaN are outside the model. A colour is three channels, a control point a location
  with a colour, a gradient map a list of control points.
\<close>

type_synonym color = "real \<times> real \<times> real"
type_synonym control_point = "real \<times> color"
type_synonym gradient_map = "control_point list"

definition red :: "color \<Rightarrow> real" where "red c = fst c"
definition green :: "color \<Rightarrow> real" where "green c = fst (snd c)"
definition blue :: "color \<Rightarrow> real" where "blue c = snd (snd c)"

definition gaussian :: "real \<Rightarrow> real \<Rightarrow> real \<Rightarrow> real \<Rightarrow> real \<Rightarrow> error + real" where
  \<comment> \<open>\<open>a * math.exp(-(x - b)**2 / (2 * c**2)) + d\<close>; float division by zero raises\<close>
  "gaussian x a b c d =
     (if 2 * c\<^sup>2 = 0 then Inl ZeroDivisionError
      else Inr (a * exp (- ((x - b)\<^sup>2) / (2 * c\<^sup>2)) + d))"

fun comprehension :: "('a \<Rightarrow> error + 'b) \<Rightarrow> 'a list \<Rightarrow> error + 'b list" where
  \<comment> \<open>\<open>[f(p) for p in ps]\<close>, stopping at the first exception\<close>
  "comprehension f [] = Inr []"
| "comprehension f (p # ps) =
     (case f p of
        Inl e \<Rightarrow> Inl e
      | Inr v \<Rightarrow> (case comprehension f ps of Inl e \<Rightarrow> Inl e | Inr vs \<Rightarrow> Inr (v # vs)))"

definition gradient_term ::
  "real \<Rightarrow> real \<Rightarrow> gradient_map \<Rightarrow> real \<Rightarrow> (color \<Rightarrow> real) \<Rightarrow> control_point \<Rightarrow> error + real" where
  \<comment> \<open>\<open>gaussian(x, p[1][k], p[0] * width, width/(spread*len(map)))\<close>; the last argument
      divides by zero when \<open>spread*len(map)\<close> is zero\<close>
  "gradient_term x width cmap spread chan p =
     (if spread * real (length cmap) = 0 then Inl ZeroDivisionError
      else gaussian x (chan (snd p)) (fst p * width)
             (width / (spread * real (length cmap))) 0)"

definition gradient :: "real \<Rightarrow> real \<Rightarrow> gradient_map \<Rightarrow> real \<Rightarrow> error + color" where
  "gradient x width cmap spread =
     (case comprehension (gradient_term x width cmap spread red) cmap of
        Inl e \<Rightarrow> Inl e
      | Inr rs \<Rightarrow>
     (case comprehension (gradient_term x width cmap spread green) cmap of
        Inl e \<Rightarrow> Inl e
      | Inr gs \<Rightarrow>
     (case comprehension (gradient_term x width cmap spread blue) cmap of
        Inl e \<Rightarrow> Inl e
      | Inr bs \<Rightarrow> Inr (min 1 (sum_list rs), min 1 (sum_list gs), min 1 (sum_list bs)))))"

definition gauss_bump :: "real \<Rightarrow> real \<Rightarrow> gradient_map \<Rightarrow> real \<Rightarrow> control_point \<Rightarrow> real" where
  \<comment> \<open>the unit-amplitude Gaussian of control point \<open>p\<close> at \<open>x\<close>\<close>
  "gauss_bump x width cmap spread p =
     exp (- ((x - fst p * width)\<^sup>2) / (2 * (width / (spread * real (length cmap)))\<^sup>2))"

definition gauss_weight :: "real \<Rightarrow> real \<Rightarrow> gradient_map \<Rightarrow> real \<Rightarrow> real" where
  \<comment> \<open>the sum of the unit-amplitude Gaussians of all control points at \<open>x\<close>\<close>
  "gauss_weight x width cmap spread = sum_list (map (gauss_bump x width cmap spread) cmap)"

section \<open>fractal.py: CustomFractal\<close>

text \<open>
  The configuration of the custom generator. Its field \<open>function\<close> is named \<open>func\<close>
  here, and it is a total real function of the coordinate. The Mandelbrot configuration
  below has a field \<open>colormap\<close> too, so this one is written \<open>custom.colormap\<close>.
\<close>

record custom =
  func :: "real \<Rightarrow> real \<Rightarrow> real"
  bounds_x :: "real \<times> real"
  bounds_y :: "real \<times> real"
  colormap :: gradient_map

section \<open>fractal.py: MandelbrotFractal\<close>

text \<open>
  The constructor takes the bounds as Python sequences of any length and checks them;
  the configuration it builds holds each pair of bounds as a pair.
\<close>

record mandelbrot =
  bounds_real :: "real \<times> real"
  bounds_imag :: "real \<times> real"
  bound_limit :: real
  iter_limit :: int
  colormap :: gradient_map

text \<open>
  The Julia configuration has the same fields and the constant \<open>c\<close>, named \<open>julia_c\<close>.
\<close>

record julia = mandelbrot +
  julia_c :: complex

definition MandelbrotFractal_init ::
  "real list \<Rightarrow> real list \<Rightarrow> real \<Rightarrow> int \<Rightarrow> gradient_map \<Rightarrow> error + mandelbrot" where
  "MandelbrotFractal_init b_real b_imag b_limit i_limit cmap =
     (if length b_real \<noteq> 2 then Inl (AssertionError ''bounds_real must have two values'')
      else if length b_imag \<noteq> 2 then Inl (AssertionError ''bounds_imag must have two values'')
      else if \<not> 2 \<le> length cmap then
        Inl (AssertionError ''colormap must have at least two points'')
      else Inr \<lparr>bounds_real = (b_real ! 0, b_real ! 1),
                bounds_imag = (b_imag ! 0, b_imag ! 1),
                bound_limit = b_limit, iter_limit = i_limit, colormap = cmap\<rparr>)"

definition linspace :: "real \<Rightarrow> real \<Rightarrow> int \<Rightarrow> error + real list" where
  \<comment> \<open>\<open>np.linspace(start, stop, num)\<close>: \<open>num\<close> samples \<open>k * step + start\<close> with
      \<open>step = (stop - start) / (num - 1)\<close>, the last one set to \<open>stop\<close>; with fewer than two
      samples there is no step and the samples are \<open>k * (stop - start) + start\<close>\<close>
  "linspace start stop num =
     (if num < 0 then Inl ValueError
      else let n = nat num in
        if n \<le> 1 then Inr (map (\<lambda>k. real k * (stop - start) + start) [0..<n])
        else Inr (map (\<lambda>k. real k * ((stop - start) / real (n - 1)) + start) [0..<n - 1]
                  @ [stop]))"

definition zeros :: "int \<Rightarrow> int \<Rightarrow> error + buffer" where
  \<comment> \<open>\<open>np.zeros((height, width, 3), np.int8)\<close>\<close>
  "zeros height width =
     (if height < 0 \<or> width < 0 then Inl ValueError
      else Inr (replicate (nat height) (replicate (nat width) (0, 0, 0))))"

function mandelbrot_loop :: "real \<Rightarrow> int \<Rightarrow> complex \<Rightarrow> complex \<Rightarrow> int \<Rightarrow> int" where
  \<comment> \<open>the \<open>while\<close> loop; returns \<open>num_iterations\<close>\<close>
  "mandelbrot_loop b_limit i_limit c z num_iterations =
     (if cmod z < b_limit \<and> num_iterations < i_limit
      then mandelbrot_loop b_limit i_limit c (z\<^sup>2 + c) (num_iterations + 1)
      else num_iterations)"
  by pat_completeness auto
termination
  by (relation "measure (\<lambda>(b_limit, i_limit, c, z, n). nat (i_limit - n))") auto

definition num_iterations :: "real \<Rightarrow> int \<Rightarrow> complex \<Rightarrow> int" where
  \<comment> \<open>\<open>z = c; num_iterations = 0; while ...\<close>\<close>
  "num_iterations b_limit i_limit c = mandelbrot_loop b_limit i_limit c c 0"

definition color_input :: "int \<Rightarrow> int \<Rightarrow> error + real" where
  \<comment> \<open>\<open>num_iterations / self.iter_limit\<close>, Python's true division of two ints\<close>
  "color_input n i_limit =
     (if i_limit = 0 then Inl ZeroDivisionError
      else Inr (real_of_int n / real_of_int i_limit))"

definition trunc :: "real \<Rightarrow> int" where
  \<comment> \<open>rounding towards zero\<close>
  "trunc v = (if 0 \<le> v then \<lfloor>v\<rfloor> else \<lceil>v\<rceil>)"

definition to_int8 :: "real \<Rightarrow> int8" where
  \<comment> \<open>storing a float in an \<open>np.int8\<close> array: the value is truncated to an integer and
      its low 8 bits are kept\<close>
  "to_int8 v = word_of_int (trunc v)"

definition mandelbrot_pixel :: "mandelbrot \<Rightarrow> real \<Rightarrow> real \<Rightarrow> error + pixel" where
  \<comment> \<open>the body of the two loops: the pixel stored for the coordinate \<open>(x, y)\<close>\<close>
  "mandelbrot_pixel cfg x y =
     (let c = Complex x y;
          n = num_iterations (bound_limit cfg) (iter_limit cfg) c
      in case color_input n (iter_limit cfg) of
           Inl e \<Rightarrow> Inl e
         | Inr t \<Rightarrow>
        (case gradient t 1 (colormap cfg) 1 of
           Inl e \<Rightarrow> Inl e
         | Inr col \<Rightarrow>
             Inr (to_int8 (255 * red col), to_int8 (255 * green col), to_int8 (255 * blue col))))"

definition julia_pixel :: "julia \<Rightarrow> real \<Rightarrow> real \<Rightarrow> error + pixel" where
  \<comment> \<open>the body of the two loops of \<open>JuliaFractal.generate\<close>: the same \<open>while\<close> loop,
      started at \<open>z = complex(x, y)\<close> with the constant \<open>self.c\<close>\<close>
  "julia_pixel cfg x y =
     (let z = Complex x y;
          n = mandelbrot_loop (bound_limit cfg) (iter_limit cfg) (julia_c cfg) z 0
      in case color_input n (iter_limit cfg) of
           Inl e \<Rightarrow> Inl e
         | Inr t \<Rightarrow>
        (case gradient t 1 (colormap cfg) 1 of
           Inl e \<Rightarrow> Inl e
         | Inr col \<Rightarrow>
             Inr (to_int8 (255 * red col), to_int8 (255 * green col), to_int8 (255 * blue col))))"

definition custom_pixel :: "custom \<Rightarrow> real \<Rightarrow> real \<Rightarrow> error + pixel" where
  \<comment> \<open>the body of the two loops of \<open>CustomFractal.generate\<close>\<close>
  "custom_pixel cfg x y =
     (case gradient (func cfg x y) 1 (custom.colormap cfg) 1 of
        Inl e \<Rightarrow> Inl e
      | Inr col \<Rightarrow>
          Inr (to_int8 (255 * red col), to_int8 (255 * green col), to_int8 (255 * blue col)))"

definition setitem :: "buffer \<Rightarrow> nat \<Rightarrow> nat \<Rightarrow> pixel \<Rightarrow> error + buffer" where
  \<comment> \<open>\<open>pix[j][i] = p\<close>\<close>
  "setitem pix j i p =
     (if j < length pix \<and> i < length (pix ! j) then Inr (pix[j := (pix ! j)[i := p]])
      else Inl IndexError)"

text \<open>
  The three \<open>generate\<close> methods have the same two loops over the same two
  \<open>np.linspace\<close> calls and differ in the loop body and in the names of the bounds:
  the loops take the body, a function from the coordinate to the pixel stored, and the
  bounds as arguments.
\<close>

fun inner_loop ::
  "(real \<Rightarrow> real \<Rightarrow> error + pixel) \<Rightarrow> nat \<Rightarrow> real \<Rightarrow> (nat \<times> real) list \<Rightarrow> buffer
   \<Rightarrow> error + buffer" where
  \<comment> \<open>\<open>for j, y in enumerate(...)\<close> at column \<open>i\<close>, coordinate \<open>x\<close>\<close>
  "inner_loop body i x [] pix = Inr pix"
| "inner_loop body i x ((j, y) # rest) pix =
     (case body x y of
        Inl e \<Rightarrow> Inl e
      | Inr p \<Rightarrow>
     (case setitem pix j i p of
        Inl e \<Rightarrow> Inl e
      | Inr pix' \<Rightarrow> inner_loop body i x rest pix'))"

fun outer_loop ::
  "(real \<Rightarrow> real \<Rightarrow> error + pixel) \<Rightarrow> real \<times> real \<Rightarrow> int \<Rightarrow> (nat \<times> real) list \<Rightarrow> buffer
   \<Rightarrow> error + buffer" where
  \<comment> \<open>\<open>for i, x in enumerate(...)\<close>; the inner \<open>np.linspace\<close> over the second pair of
      bounds is evaluated once per column\<close>
  "outer_loop body b_y height [] pix = Inr pix"
| "outer_loop body b_y height ((i, x) # rest) pix =
     (case linspace (fst b_y) (snd b_y) height of
        Inl e \<Rightarrow> Inl e
      | Inr ys \<Rightarrow>
     (case inner_loop body i x (enumerate 0 ys) pix of
        Inl e \<Rightarrow> Inl e
      | Inr pix' \<Rightarrow> outer_loop body b_y height rest pix'))"

definition pixel_loops ::
  "(real \<Rightarrow> real \<Rightarrow> error + pixel) \<Rightarrow> real \<times> real \<Rightarrow> real \<times> real \<Rightarrow> int \<Rightarrow> int
   \<Rightarrow> error + buffer" where
  \<comment> \<open>\<open>pix = np.zeros(...)\<close>, the two loops, \<open>return pix\<close>\<close>
  "pixel_loops body b_x b_y height width =
     (case zeros height width of
        Inl e \<Rightarrow> Inl e
      | Inr pix \<Rightarrow>
     (case linspace (fst b_x) (snd b_x) width of
        Inl e \<Rightarrow> Inl e
      | Inr xs \<Rightarrow> outer_loop body b_y height (enumerate 0 xs) pix))"

definition generate :: "mandelbrot \<Rightarrow> int \<Rightarrow> int \<Rightarrow> error + buffer" where
  \<comment> \<open>\<open>MandelbrotFractal.generate\<close>\<close>
  "generate cfg height width =
     pixel_loops (mandelbrot_pixel cfg) (bounds_real cfg) (bounds_imag cfg) height width"

definition JuliaFractal_generate :: "julia \<Rightarrow> int \<Rightarrow> int \<Rightarrow> error + buffer" where
  "JuliaFractal_generate cfg height width =
     pixel_loops (julia_pixel cfg) (bounds_real cfg) (bounds_imag cfg) height width"

definition CustomFractal_generate :: "custom \<Rightarrow> int \<Rightarrow> int \<Rightarrow> error + buffer" where
  "CustomFractal_generate cfg height width =
     pixel_loops (custom_pixel cfg) (bounds_x cfg) (bounds_y cfg) height width"

section \<open>Notions of the specification\<close>

definition orbit :: "complex \<Rightarrow> nat \<Rightarrow> complex" where
  \<comment> \<open>the orbit \<open>z \<leftarrow> z\<^sup>2 + c\<close> starting at \<open>z = c\<close>, after \<open>k\<close> steps\<close>
  "orbit c k = ((\<lambda>z. z\<^sup>2 + c) ^^ k) c"

definition sample :: "real \<Rightarrow> real \<Rightarrow> nat \<Rightarrow> nat \<Rightarrow> real" where
  \<comment> \<open>sample \<open>k\<close> of \<open>n\<close> evenly spaced samples across \<open>[lo, hi]\<close>, endpoints included\<close>
  "sample lo hi n k = lo + real k * ((hi - lo) / real (n - 1))"

definition shift_x_spec :: "buffer \<Rightarrow> nat \<Rightarrow> buffer" where
  \<comment> \<open>the specification's \<open>axis='x'\<close> result: column \<open>i\<close> of every row receives column
      \<open>i + offset\<close> of that row when \<open>i < width - offset\<close>, and is unchanged otherwise\<close>
  "shift_x_spec src offset =
     map (\<lambda>r. map (\<lambda>i. if i < length r - offset then add_pixel (r ! i) (r ! (i + offset))
                          else r ! i) [0..<length r]) src"

definition twice :: "buffer \<Rightarrow> buffer" where
  \<comment> \<open>the specification's \<open>2 \<times> buffer\<close>\<close>
  "twice src = map (map (\<lambda>p. add_pixel p p)) src"

section \<open>Concrete inputs\<close>

definition white_map :: gradient_map where
  \<comment> \<open>\<open>[[0.0, (1.0, 1.0, 1.0)], [1.0, (1.0, 1.0, 1.0)]]\<close>\<close>
  "white_map = [(0, (1, 1, 1)), (1, (1, 1, 1))]"

definition white_cfg :: mandelbrot where
  \<comment> \<open>\<open>MandelbrotFractal((10.0, 11.0), (10.0, 11.0), 2.0, 1, colormap=white_map)\<close>\<close>
  "white_cfg = \<lparr>bounds_real = (10, 11), bounds_imag = (10, 11), bound_limit = 2,
                 iter_limit = 1, colormap = white_map\<rparr>"

definition julia_cfg :: julia where
  \<comment> \<open>\<open>JuliaFractal(-0.8 + 0.156j, (10.0, 11.0), (10.0, 11.0), 2.0, 1, colormap=white_map)\<close>\<close>
  "julia_cfg = \<lparr>bounds_real = (10, 11), bounds_imag = (10, 11), bound_limit = 2,
                 iter_limit = 1, colormap = white_map, julia_c = Complex (- 4/5) (39/250)\<rparr>"

definition custom_cfg :: custom where
  \<comment> \<open>\<open>CustomFractal(lambda x, y: x, (0.0, 1.0), (0.0, 1.0), colormap=white_map)\<close>\<close>
  "custom_cfg = \<lparr>func = (\<lambda>x y. x), bounds_x = (0, 1), bounds_y = (0, 1),
                  custom.colormap = white_map\<rparr>"

definition grey_map :: gradient_map where
  \<comment> \<open>\<open>[[0.0, (0.5, 0.5, 0.5)], [1.0, (0.5, 0.5, 0.5)]]\<close>\<close>
  "grey_map = [(0, (1/2, 1/2, 1/2)), (1, (1/2, 1/2, 1/2))]"

definition quad :: buffer where
  \<comment> \<open>a 2 by 2 buffer whose four pixels differ\<close>
  "quad = [[(1, 1, 1), (2, 2, 2)], [(4, 4, 4), (8, 8, 8)]]"

declare mandelbrot_loop.simps [simp del]

section \<open>Slicing and addition\<close>

lemma subview_all: "subview (whole xs) None None = whole xs"
  by (simp add: subview_def whole_def)

lemma add_row_zeros: "add_row r (map (\<lambda>_. (0, 0, 0)) r) = r"
  by (induction r) (auto simp: add_row_def)

lemma add_buffer_zeros: "add_buffer src (zeros_like src) = src"
  by (induction src) (auto simp: add_buffer_def zeros_like_def add_row_zeros)

lemma length_zeros_like: "length (zeros_like src) = length src"
  by (simp add: zeros_like_def)

lemma shifted_overlay:
  assumes "0 < offset"
  shows "write_view (zeros_like src)
           (subview (whole (zeros_like src)) None (Some (- offset)))
           (read_view src (subview (whole src) (Some offset) None))
         = Inr (drop (nat offset) src @ drop (length src - nat offset) (zeros_like src))"
  using assms
  by (auto simp: write_view_def subview_def whole_def read_view_def norm_index_def
      length_zeros_like Let_def min_def max_def)

lemma corrupt_y_eq:
  assumes "0 < offset"
  shows "corrupt src offset ''y'' =
    Inr (Some (add_buffer src (drop (nat offset) src @ drop (length src - nat offset) (zeros_like src))))"
  by (simp add: corrupt_def Let_def shifted_overlay [OF assms])

lemma corrupt_x_eq_y: "corrupt src offset ''x'' = corrupt src offset ''y''"
  by (simp add: corrupt_def subview_all)

lemma corrupt_zero_rows:
  "axis = ''x'' \<or> axis = ''y'' \<Longrightarrow>
   corrupt src 0 axis = (if length src \<le> 1 then Inr (Some src) else Inl ValueError)"
  apply (cases src)
   apply (auto simp: corrupt_def subview_all write_view_def subview_def whole_def read_view_def norm_index_def
      length_zeros_like Let_def add_buffer_zeros)
  done

section \<open>The gradient and the Mandelbrot iteration\<close>

lemma comprehension_ok:
  "(\<And>p. p \<in> set ps \<Longrightarrow> f p = Inr (g p)) \<Longrightarrow> comprehension f ps = Inr (map g ps)"
  by (induction ps) auto

lemma gradient_term_ok:
  assumes "width \<noteq> 0" "spread \<noteq> 0" "cmap \<noteq> []"
  shows "gradient_term x width cmap spread chan p
         = Inr (chan (snd p) * gauss_bump x width cmap spread p)"
  using assms by (simp add: gradient_term_def gaussian_def gauss_bump_def)

lemma gradient_eq:
  assumes "width \<noteq> 0" "spread \<noteq> 0" "cmap \<noteq> []"
  shows "gradient x width cmap spread =
     Inr (min 1 (sum_list (map (\<lambda>p. red (snd p) * gauss_bump x width cmap spread p) cmap)),
          min 1 (sum_list (map (\<lambda>p. green (snd p) * gauss_bump x width cmap spread p) cmap)),
          min 1 (sum_list (map (\<lambda>p. blue (snd p) * gauss_bump x width cmap spread p) cmap)))"
proof -
  have c: "comprehension (gradient_term x width cmap spread chan) cmap
           = Inr (map (\<lambda>p. chan (snd p) * gauss_bump x width cmap spread p) cmap)" for chan
    by (rule comprehension_ok) (rule gradient_term_ok [OF assms])
  show ?thesis by (simp add: gradient_def c)
qed

lemma gauss_bump_pos: "0 < gauss_bump x width cmap spread p"
  by (simp add: gauss_bump_def)

lemma channel_sum_nonneg:
  assumes "\<And>p. p \<in> set ps \<Longrightarrow> 0 \<le> chan (snd p)"
  shows "0 \<le> sum_list (map (\<lambda>p. chan (snd p) * gauss_bump x width cmap spread p) ps)"
  using assms by (intro sum_list_nonneg) (auto simp: less_imp_le [OF gauss_bump_pos])

lemma channel_sum_const:
  assumes "\<And>p. p \<in> set ps \<Longrightarrow> chan (snd p) = v"
  shows "sum_list (map (\<lambda>p. chan (snd p) * gauss_bump x width cmap spread p) ps)
         = v * sum_list (map (gauss_bump x width cmap spread) ps)"
  using assms by (induction ps) (auto simp: algebra_simps)

lemma gauss_weight_pos: "cmap \<noteq> [] \<Longrightarrow> 0 < gauss_weight x width cmap spread"
  unfolding gauss_weight_def
  by (cases cmap) (auto intro!: add_pos_nonneg sum_list_nonneg simp: gauss_bump_pos less_imp_le [OF gauss_bump_pos])

lemma loop_bounded:
  "n \<le> il \<Longrightarrow> (\<forall>k < nat (il - n). cmod (((\<lambda>z. z\<^sup>2 + c) ^^ k) z) < bl)
   \<Longrightarrow> mandelbrot_loop bl il c z n = il"
proof (induction bl il c z n rule: mandelbrot_loop.induct)
  case (1 bl il c z n)
  show ?case
  proof (cases "n < il")
    case True
    with "1.prems" have z: "cmod z < bl" by (auto dest: spec [where x = 0])
    have "\<forall>k < nat (il - (n + 1)). cmod (((\<lambda>z. z\<^sup>2 + c) ^^ k) (z\<^sup>2 + c)) < bl"
    proof (intro allI impI)
      fix k assume "k < nat (il - (n + 1))"
      then have "Suc k < nat (il - n)" by linarith
      with "1.prems" have "cmod (((\<lambda>z. z\<^sup>2 + c) ^^ Suc k) z) < bl" by blast
      then show "cmod (((\<lambda>z. z\<^sup>2 + c) ^^ k) (z\<^sup>2 + c)) < bl"
        by (simp only: funpow_Suc_right o_apply)
    qed
    with "1.IH" True z have "mandelbrot_loop bl il c (z\<^sup>2 + c) (n + 1) = il" by simp
    with True z show ?thesis by (subst mandelbrot_loop.simps) simp
  next
    case False
    with "1.prems" have "n = il" by simp
    then show ?thesis by (subst mandelbrot_loop.simps) simp
  qed
qed

lemma orbit_zero: "orbit 0 k = 0"
  by (induction k) (auto simp: orbit_def)

lemma escape_at_once:
  assumes "bl \<le> cmod c"
  shows "num_iterations bl il c = 0"
  using assms unfolding num_iterations_def by (subst mandelbrot_loop.simps) simp

lemma cmod_10_10: "2 \<le> cmod (Complex 10 10)"
  by (simp add: cmod_def real_le_rsqrt)

section \<open>The pixel loops\<close>

lemma gradient_unit_total: "\<exists>col. gradient t 1 cmap 1 = Inr col"
proof (cases cmap)
  case Nil
  then show ?thesis by (simp add: gradient_def)
next
  case (Cons p ps)
  then show ?thesis by (simp add: gradient_eq)
qed

lemma mandelbrot_pixel_total:
  assumes "iter_limit cfg \<noteq> 0"
  shows "\<exists>p. mandelbrot_pixel cfg x y = Inr p"
proof -
  obtain col where "gradient (real_of_int (num_iterations (bound_limit cfg) (iter_limit cfg) (Complex x y))
                      / real_of_int (iter_limit cfg)) 1 (colormap cfg) 1 = Inr col"
    using gradient_unit_total by blast
  with assms show ?thesis
    by (simp add: mandelbrot_pixel_def color_input_def Let_def)
qed

lemma julia_pixel_total:
  assumes "iter_limit cfg \<noteq> 0"
  shows "\<exists>p. julia_pixel cfg x y = Inr p"
proof -
  obtain col where "gradient (real_of_int (mandelbrot_loop (bound_limit cfg) (iter_limit cfg)
                        (julia_c cfg) (Complex x y) 0)
                      / real_of_int (iter_limit cfg)) 1 (colormap cfg) 1 = Inr col"
    using gradient_unit_total by blast
  with assms show ?thesis
    by (simp add: julia_pixel_def color_input_def Let_def)
qed

lemma custom_pixel_total: "\<exists>p. custom_pixel cfg x y = Inr p"
proof -
  obtain col where "gradient (func cfg x y) 1 (custom.colormap cfg) 1 = Inr col"
    using gradient_unit_total by blast
  then show ?thesis by (simp add: custom_pixel_def)
qed

lemma inner_loop_spec:
  assumes total: "\<And>x y. \<exists>p. body x y = Inr p"
  shows "k + length ys \<le> length pix \<Longrightarrow> \<forall>j < length pix. i < length (pix ! j) \<Longrightarrow>
    \<exists>pix'. inner_loop body i x (enumerate k ys) pix = Inr pix'
      \<and> length pix' = length pix
      \<and> (\<forall>j < length pix. length (pix' ! j) = length (pix ! j))
      \<and> (\<forall>j < length pix. \<forall>i' < length (pix ! j). pix' ! j ! i' =
            (if i' = i \<and> k \<le> j \<and> j < k + length ys
             then projr (body x (ys ! (j - k))) else pix ! j ! i'))"
proof (induction ys arbitrary: k pix)
  case Nil
  then show ?case by auto
next
  case (Cons y ys)
  obtain p where px: "body x y = Inr p"
    using total by blast
  let ?pix1 = "pix[k := (pix ! k)[i := p]]"
  have k: "k < length pix" "i < length (pix ! k)" using Cons.prems by auto
  then have set: "setitem pix k i p = Inr ?pix1" by (simp add: setitem_def)
  have rowlen: "length (?pix1 ! j) = length (pix ! j)" if "j < length pix" for j
    using that by (cases "j = k") simp_all
  have len1: "Suc k + length ys \<le> length ?pix1" using Cons.prems by simp
  have row1: "\<forall>j < length ?pix1. i < length (?pix1 ! j)"
    using Cons.prems by (simp add: rowlen)
  from Cons.IH [OF len1 row1] obtain pix' where
    run: "inner_loop body i x (enumerate (Suc k) ys) ?pix1 = Inr pix'"
    and len: "length pix' = length ?pix1"
    and rows: "\<forall>j < length ?pix1. length (pix' ! j) = length (?pix1 ! j)"
    and vals: "\<forall>j < length ?pix1. \<forall>i' < length (?pix1 ! j). pix' ! j ! i' =
            (if i' = i \<and> Suc k \<le> j \<and> j < Suc k + length ys
             then projr (body x (ys ! (j - Suc k))) else ?pix1 ! j ! i')"
    by blast
  have "inner_loop body i x (enumerate k (y # ys)) pix = Inr pix'"
    using px set run by simp
  moreover have "length pix' = length pix" using len by simp
  moreover have "\<forall>j < length pix. length (pix' ! j) = length (pix ! j)"
    using rows by (simp add: rowlen)
  moreover have "\<forall>j < length pix. \<forall>i' < length (pix ! j). pix' ! j ! i' =
            (if i' = i \<and> k \<le> j \<and> j < k + length (y # ys)
             then projr (body x ((y # ys) ! (j - k))) else pix ! j ! i')"
  proof (intro allI impI)
    fix j i' assume j: "j < length pix" and i': "i' < length (pix ! j)"
    then have "i' < length (?pix1 ! j)" by (simp add: rowlen)
    with vals j have v: "pix' ! j ! i' =
            (if i' = i \<and> Suc k \<le> j \<and> j < Suc k + length ys
             then projr (body x (ys ! (j - Suc k))) else ?pix1 ! j ! i')"
      by simp
    show "pix' ! j ! i' =
            (if i' = i \<and> k \<le> j \<and> j < k + length (y # ys)
             then projr (body x ((y # ys) ! (j - k))) else pix ! j ! i')"
    proof (cases "j = k")
      case True
      with v j i' px show ?thesis by (simp add: nth_list_update)
    next
      case False
      have "(y # ys) ! (j - k) = ys ! (j - Suc k)" if "k < j"
      proof -
        from that have "j - k = Suc (j - Suc k)" by simp
        then show ?thesis by (simp only: nth_Cons_Suc)
      qed
      with False v j i' show ?thesis
        by (cases "k < j") (auto simp: nth_list_update)
    qed
  qed
  ultimately show ?case by blast
qed

lemma linspace_samples_nat:
  assumes "1 < n"
  shows "linspace lo hi (int n) = Inr (map (sample lo hi n) [0..<n])"
proof -
  from assms obtain m where m: "n = Suc (Suc m)"
    by (cases n; cases "n - 1") auto
  have fg: "sample lo hi n = (\<lambda>k. real k * ((hi - lo) / real (n - 1)) + lo)"
    by (rule ext) (simp add: sample_def)
  have last: "sample lo hi n (n - 1) = hi"
    by (simp add: sample_def m)
  have split: "[0..<n] = [0..<n - 1] @ [n - 1]"
    by (simp add: m)
  have "map (sample lo hi n) [0..<n]
        = map (sample lo hi n) [0..<n - 1] @ [sample lo hi n (n - 1)]"
    by (subst split) (simp only: map_append list.map)
  also have "\<dots> = map (\<lambda>k. real k * ((hi - lo) / real (n - 1)) + lo) [0..<n - 1] @ [hi]"
    by (simp only: last) (simp only: fg)
  finally have eq: "map (sample lo hi n) [0..<n]
        = map (\<lambda>k. real k * ((hi - lo) / real (n - 1)) + lo) [0..<n - 1] @ [hi]" .
  have "linspace lo hi (int n)
        = Inr (map (\<lambda>k. real k * ((hi - lo) / real (n - 1)) + lo) [0..<n - 1] @ [hi])"
    using assms by (simp add: linspace_def Let_def)
  then show ?thesis by (simp only: eq)
qed

lemma linspace_samples:
  assumes "1 < num"
  shows "linspace lo hi num = Inr (map (sample lo hi (nat num)) [0..<nat num])"
  using linspace_samples_nat [of "nat num" lo hi] assms by simp

lemma linspace_length:
  assumes "0 \<le> num"
  shows "\<exists>xs. linspace lo hi num = Inr xs \<and> length xs = nat num"
  using assms by (auto simp: linspace_def Let_def)

lemma outer_loop_spec:
  assumes total: "\<And>x y. \<exists>p. body x y = Inr p"
    and ys: "linspace (fst b_y) (snd b_y) height = Inr ys"
            "length ys = h"
  shows "length pix = h \<Longrightarrow> \<forall>j < h. length (pix ! j) = w \<Longrightarrow> k + length xs \<le> w \<Longrightarrow>
    \<exists>pix'. outer_loop body b_y height (enumerate k xs) pix = Inr pix'
      \<and> length pix' = h
      \<and> (\<forall>j < h. length (pix' ! j) = w)
      \<and> (\<forall>j < h. \<forall>i < w. pix' ! j ! i =
            (if k \<le> i \<and> i < k + length xs
             then projr (body (xs ! (i - k)) (ys ! j)) else pix ! j ! i))"
proof (induction xs arbitrary: k pix)
  case Nil
  then show ?case by auto
next
  case (Cons x xs)
  have kw: "k < w" using Cons.prems by simp
  have a1: "0 + length ys \<le> length pix" using Cons.prems ys by simp
  have a2: "\<forall>j < length pix. k < length (pix ! j)" using Cons.prems kw by simp
  from inner_loop_spec [where body = body and x = x, OF total a1 a2] obtain pix1 where
    run1: "inner_loop body k x (enumerate 0 ys) pix = Inr pix1"
    and len1: "length pix1 = length pix"
    and rows1: "\<forall>j < length pix. length (pix1 ! j) = length (pix ! j)"
    and vals1: "\<forall>j < length pix. \<forall>i' < length (pix ! j). pix1 ! j ! i' =
            (if i' = k \<and> 0 \<le> j \<and> j < 0 + length ys
             then projr (body x (ys ! (j - 0))) else pix ! j ! i')"
    by blast
  have b1: "length pix1 = h" using len1 Cons.prems by simp
  have b2: "\<forall>j < h. length (pix1 ! j) = w" using rows1 Cons.prems by simp
  have b3: "Suc k + length xs \<le> w" using Cons.prems by simp
  from Cons.IH [OF b1 b2 b3] obtain pix' where
    run: "outer_loop body b_y height (enumerate (Suc k) xs) pix1 = Inr pix'"
    and len: "length pix' = h"
    and rows: "\<forall>j < h. length (pix' ! j) = w"
    and vals: "\<forall>j < h. \<forall>i < w. pix' ! j ! i =
            (if Suc k \<le> i \<and> i < Suc k + length xs
             then projr (body (xs ! (i - Suc k)) (ys ! j)) else pix1 ! j ! i)"
    by blast
  have "outer_loop body b_y height (enumerate k (x # xs)) pix = Inr pix'"
    using ys(1) run1 run by simp
  moreover have "\<forall>j < h. \<forall>i < w. pix' ! j ! i =
            (if k \<le> i \<and> i < k + length (x # xs)
             then projr (body ((x # xs) ! (i - k)) (ys ! j)) else pix ! j ! i)"
  proof (intro allI impI)
    fix j i assume j: "j < h" and i: "i < w"
    from vals j i have v: "pix' ! j ! i =
            (if Suc k \<le> i \<and> i < Suc k + length xs
             then projr (body (xs ! (i - Suc k)) (ys ! j)) else pix1 ! j ! i)"
      by simp
    from vals1 j i Cons.prems ys(2) have v1: "pix1 ! j ! i =
            (if i = k then projr (body x (ys ! j)) else pix ! j ! i)"
      by simp
    show "pix' ! j ! i =
            (if k \<le> i \<and> i < k + length (x # xs)
             then projr (body ((x # xs) ! (i - k)) (ys ! j)) else pix ! j ! i)"
    proof (cases "i = k")
      case True
      with v v1 show ?thesis by simp
    next
      case False
      have "(x # xs) ! (i - k) = xs ! (i - Suc k)" if "k < i"
      proof -
        from that have "i - k = Suc (i - Suc k)" by simp
        then show ?thesis by (simp only: nth_Cons_Suc)
      qed
      with False v v1 show ?thesis
        by (cases "k < i") auto
    qed
  qed
  ultimately show ?case using len rows by blast
qed

lemma pixel_loops_spec:
  assumes total: "\<And>x y. \<exists>p. body x y = Inr p" and h: "0 \<le> height" and w: "0 \<le> width"
    and xs: "linspace (fst b_x) (snd b_x) width = Inr xs"
            "length xs = nat width"
    and ys: "linspace (fst b_y) (snd b_y) height = Inr ys"
            "length ys = nat height"
  shows "\<exists>pix. pixel_loops body b_x b_y height width = Inr pix
      \<and> rect (nat height) (nat width) pix
      \<and> (\<forall>j < nat height. \<forall>i < nat width.
            body (xs ! i) (ys ! j) = Inr (pix ! j ! i))"
proof -
  let ?z = "replicate (nat height) (replicate (nat width) (0, 0, 0)) :: buffer"
  have z: "zeros height width = Inr ?z" using h w by (simp add: zeros_def)
  have c1: "length ?z = nat height" by simp
  have c2: "\<forall>j < nat height. length (?z ! j) = nat width" by simp
  have c3: "0 + length xs \<le> nat width" using xs(2) by simp
  from outer_loop_spec [where body = body, OF total ys c1 c2 c3] obtain pix where
    run: "outer_loop body b_y height (enumerate 0 xs) ?z = Inr pix"
    and len: "length pix = nat height"
    and rows: "\<forall>j < nat height. length (pix ! j) = nat width"
    and vals: "\<forall>j < nat height. \<forall>i < nat width. pix ! j ! i =
            (if 0 \<le> i \<and> i < 0 + length xs
             then projr (body (xs ! (i - 0)) (ys ! j)) else ?z ! j ! i)"
    by blast
  have "pixel_loops body b_x b_y height width = Inr pix"
    using z xs(1) run by (simp add: pixel_loops_def)
  moreover have "rect (nat height) (nat width) pix"
    using len rows by (simp add: rect_def list_all_length)
  moreover have "\<forall>j < nat height. \<forall>i < nat width.
            body (xs ! i) (ys ! j) = Inr (pix ! j ! i)"
  proof (intro allI impI)
    fix j i assume "j < nat height" "i < nat width"
    with vals xs(2) have "pix ! j ! i = projr (body (xs ! i) (ys ! j))" by simp
    moreover obtain p where "body (xs ! i) (ys ! j) = Inr p"
      using total by blast
    ultimately show "body (xs ! i) (ys ! j) = Inr (pix ! j ! i)" by simp
  qed
  ultimately show ?thesis by blast
qed

lemma corrupt_y_rows:
  assumes "0 < offset" "nat offset < length src"
  shows "\<exists>res. corrupt src offset ''y'' = Inr (Some res) \<and> length res = length src
    \<and> (\<forall>j < length src. res ! j =
          (if j < length src - nat offset then add_row (src ! j) (src ! (j + nat offset))
           else src ! j))"
proof -
  let ?k = "nat offset" and ?n = "length src"
  let ?ov = "drop ?k src @ drop (?n - ?k) (zeros_like src)"
  have len: "length ?ov = ?n" using assms by (simp add: length_zeros_like)
  have ov: "?ov ! j = (if j < ?n - ?k then src ! (j + ?k) else map (\<lambda>_. (0, 0, 0)) (src ! j))"
    if "j < ?n" for j
    using that assms by (auto simp: nth_append zeros_like_def add.commute)
  have "add_buffer src ?ov ! j =
          (if j < ?n - ?k then add_row (src ! j) (src ! (j + ?k)) else src ! j)"
    if "j < ?n" for j
    using that len ov [OF that] by (simp add: add_buffer_def add_row_zeros)
  moreover have "length (add_buffer src ?ov) = ?n" using len by (simp add: add_buffer_def)
  ultimately show ?thesis using corrupt_y_eq [OF assms(1), of src] by simp
qed

lemma white_gradient: "gradient 0 1 white_map 1 = Inr (1, 1, 1)"
proof -
  have pos: "0 < gauss_bump 0 1 white_map 1 (1, (1, 1, 1))" by (rule gauss_bump_pos)
  have one: "gauss_bump 0 1 white_map 1 (0, (1, 1, 1)) = 1" by (simp add: gauss_bump_def)
  have ne: "(1::real) \<noteq> 0" "white_map \<noteq> []" by (simp_all add: white_map_def)
  have points: "map f white_map = [f (0, (1, 1, 1)), f (1, (1, 1, 1))]" for f :: "control_point \<Rightarrow> real"
    by (simp add: white_map_def)
  show ?thesis
    using pos
    by (simp add: gradient_eq [OF ne(1) ne(1) ne(2)] points one red_def green_def blue_def)
qed

lemma white_pixel: "mandelbrot_pixel white_cfg 10 10 = Inr (- 1, - 1, - 1)"
proof -
  have "num_iterations 2 1 (Complex 10 10) = 0"
    by (rule escape_at_once) (rule cmod_10_10)
  then show ?thesis
    by (simp add: mandelbrot_pixel_def white_cfg_def color_input_def white_gradient
        red_def green_def blue_def to_int8_def trunc_def)
qed

lemma exp_minus_50: "exp (- 50) < (1 / 50 :: real)"
proof -
  have "1 + (50::real) \<le> exp 50" by (rule exp_ge_add_one_self)
  then have "(50::real) < exp 50" by simp
  then have "1 / exp 50 < 1 / (50::real)" by (simp add: field_simps)
  then show ?thesis by (simp add: exp_minus field_simps)
qed

lemma grey_points:
  "map f grey_map = [f (0, (1/2, 1/2, 1/2)), f (1, (1/2, 1/2, 1/2))]"
  by (simp add: grey_map_def)

lemma grey_bumps:
  "gauss_bump (1/2) 1 grey_map 10 (0, (1/2, 1/2, 1/2)) = exp (- 50)"
  "gauss_bump (1/2) 1 grey_map 10 (1, (1/2, 1/2, 1/2)) = exp (- 50)"
  by (simp_all add: gauss_bump_def grey_map_def power2_eq_square)

lemma mandelbrot_pixel_zero_limit:
  assumes "iter_limit cfg = 0"
  shows "mandelbrot_pixel cfg x y = Inl ZeroDivisionError"
  using assms by (simp add: mandelbrot_pixel_def color_input_def Let_def)

lemma pixel_loops_samples:
  assumes total: "\<And>x y. \<exists>p. body x y = Inr p" and h: "1 < height" and w: "1 < width"
  shows "\<exists>pix. pixel_loops body b_x b_y height width = Inr pix
      \<and> rect (nat height) (nat width) pix
      \<and> (\<forall>j < nat height. \<forall>i < nat width.
            body (sample (fst b_x) (snd b_x) (nat width) i)
                 (sample (fst b_y) (snd b_y) (nat height) j)
            = Inr (pix ! j ! i))
      \<and> body (fst b_x) (fst b_y) = Inr (pix ! 0 ! 0)
      \<and> body (snd b_x) (snd b_y) = Inr (pix ! (nat height - 1) ! (nat width - 1))"
proof -
  let ?xs = "map (sample (fst b_x) (snd b_x) (nat width)) [0..<nat width]"
  let ?ys = "map (sample (fst b_y) (snd b_y) (nat height)) [0..<nat height]"
  have hw: "0 \<le> height" "0 \<le> width" using h w by simp_all
  from pixel_loops_spec [where body = body and b_x = b_x and b_y = b_y, OF total hw linspace_samples [OF w] _ linspace_samples [OF h]]
  obtain pix where
    gen: "pixel_loops body b_x b_y height width = Inr pix"
    and shape: "rect (nat height) (nat width) pix"
    and vals: "\<forall>j < nat height. \<forall>i < nat width.
            body (?xs ! i) (?ys ! j) = Inr (pix ! j ! i)"
    by auto
  have all: "\<forall>j < nat height. \<forall>i < nat width.
            body
              (sample (fst b_x) (snd b_x) (nat width) i)
              (sample (fst b_y) (snd b_y) (nat height) j)
            = Inr (pix ! j ! i)"
    using vals by simp
  have fx: "sample (fst b_x) (snd b_x) (nat width) 0
            = fst b_x"
    and fy: "sample (fst b_y) (snd b_y) (nat height) 0
            = fst b_y"
    by (simp_all add: sample_def)
  have lx: "sample (fst b_x) (snd b_x) (nat width) (nat width - 1)
            = snd b_x"
    using w by (simp add: sample_def)
  have ly: "sample (fst b_y) (snd b_y) (nat height) (nat height - 1)
            = snd b_y"
    using h by (simp add: sample_def)
  have "0 < nat height" "0 < nat width" using h w by simp_all
  with all have "body
              (sample (fst b_x) (snd b_x) (nat width) 0)
              (sample (fst b_y) (snd b_y) (nat height) 0)
            = Inr (pix ! 0 ! 0)"
    by blast
  then have c0: "body (fst b_x) (fst b_y)
                 = Inr (pix ! 0 ! 0)"
    by (simp only: fx fy)
  have "nat height - 1 < nat height" "nat width - 1 < nat width" using h w by simp_all
  with all have "body
              (sample (fst b_x) (snd b_x) (nat width) (nat width - 1))
              (sample (fst b_y) (snd b_y) (nat height) (nat height - 1))
            = Inr (pix ! (nat height - 1) ! (nat width - 1))"
    by blast
  then have c1: "body (snd b_x) (snd b_y)
          = Inr (pix ! (nat height - 1) ! (nat width - 1))"
    by (simp only: lx ly)
  from gen shape all c0 c1 show ?thesis by blast
qed

lemma pixel_loops_fail:
  assumes fail: "\<And>x y. body x y = Inl e" and h: "0 < height" and w: "0 < width"
  shows "pixel_loops body b_x b_y height width = Inl e"
proof -
  obtain xs where xs: "linspace (fst b_x) (snd b_x) width = Inr xs" "length xs = nat width"
    using linspace_length [of width] w by fastforce
  obtain ys where ys: "linspace (fst b_y) (snd b_y) height = Inr ys" "length ys = nat height"
    using linspace_length [of height] h by fastforce
  from xs(2) w obtain x xs' where x: "xs = x # xs'" by (cases xs) auto
  from ys(2) h obtain y ys' where y: "ys = y # ys'" by (cases ys) auto
  have "zeros height width = Inr (replicate (nat height) (replicate (nat width) (0, 0, 0)))"
    using h w by (simp add: zeros_def)
  then show ?thesis
    using xs(1) ys(1) by (simp add: pixel_loops_def x y fail)
qed

lemma julia_pixel_zero_limit:
  assumes "iter_limit cfg = 0"
  shows "julia_pixel cfg x y = Inl ZeroDivisionError"
  using assms by (simp add: julia_pixel_def color_input_def Let_def)

section \<open>The claims\<close>

subsection \<open>C1: corrupt shifts along the chosen axis\<close>

text \<open>
  Claim C1: for \<open>0 < offset <\<close> the relevant dimension, \<open>corrupt(buffer, offset, axis)\<close>
  adds to the buffer its content shifted by \<open>offset\<close> along the chosen axis, rows for
  \<open>axis='y'\<close> and columns for \<open>axis='x'\<close>. The rows half holds (\<open>corrupt_y_rows\<close>). The
  columns half does not: \<open>offset_pix[:][:-offset] = src[:][offset:]\<close> slices the rows twice,
  so on the 2 by 2 buffer \<open>quad\<close> with offset 1 the \<open>'x'\<close> branch adds row 1 to row 0,
  where the claim's column shift gives another buffer.
\<close>

theorem corrupt_x_shifts_rows:
  "corrupt quad 1 ''x''
      = Inr (Some [[(5, 5, 5), (10, 10, 10)], [(4, 4, 4), (8, 8, 8)]])
   \<and> shift_x_spec quad 1 = [[(3, 3, 3), (2, 2, 2)], [(12, 12, 12), (8, 8, 8)]]"
proof -
  have "corrupt quad 1 ''x'' = Inr (Some [[(5, 5, 5), (10, 10, 10)], [(4, 4, 4), (8, 8, 8)]])"
    by (simp add: corrupt_x_eq_y corrupt_y_eq quad_def zeros_like_def add_buffer_def add_row_def)
  moreover have "shift_x_spec quad 1 = [[(3, 3, 3), (2, 2, 2)], [(12, 12, 12), (8, 8, 8)]]"
    by (simp add: shift_x_spec_def quad_def upt_rec)
  ultimately show ?thesis by simp
qed

subsection \<open>C2: stored channels lie in [0, 255]\<close>

text \<open>
  Claim C2: every channel of every pixel returned by \<open>generate\<close> is an integer in
  \<open>[0, 255]\<close>, the truncation of \<open>255 * g\<close> for the gradient channel \<open>g\<close>. The buffer is
  an \<open>np.int8\<close> array: for the white gradient map the gradient channel is \<open>1.0\<close>, its
  scaled value is 255, and the channel stored and returned is \<open>-1\<close>.
\<close>

theorem generate_white_wraps:
  "MandelbrotFractal_init [10, 11] [10, 11] 2 1 white_map = Inr white_cfg
   \<and> gradient 0 1 white_map 1 = Inr (1, 1, 1)
   \<and> trunc (255 * 1) = 255
   \<and> generate white_cfg 1 1 = Inr [[(- 1, - 1, - 1)]]
   \<and> sint (- 1 :: int8) = - 1"
proof -
  have "MandelbrotFractal_init [10, 11] [10, 11] 2 1 white_map = Inr white_cfg"
    by (simp add: MandelbrotFractal_init_def white_cfg_def white_map_def)
  moreover have "generate white_cfg 1 1 = Inr [[(- 1, - 1, - 1)]]"
  proof -
    have l: "linspace 10 11 1 = Inr [10]" by (simp add: linspace_def)
    have b: "bounds_real white_cfg = (10, 11)" "bounds_imag white_cfg = (10, 11)"
      by (simp_all add: white_cfg_def)
    show ?thesis
      by (simp add: generate_def pixel_loops_def zeros_def b l enumerate_eq_zip white_pixel
          setitem_def)
  qed
  moreover have "trunc (255 * 1) = 255" by (simp add: trunc_def)
  ultimately show ?thesis by (simp add: white_gradient)
qed

subsection \<open>C3: corrupt with offset 0\<close>

text \<open>
  Claim C3: \<open>corrupt(buffer, 0, axis)\<close> returns twice the buffer, the overlay of a shift
  by zero being the buffer itself. The code writes the overlay through the slice
  \<open>[:-offset]\<close>, which for offset 0 is \<open>[:0]\<close>, the empty slice: a one-row buffer comes
  back unchanged, not doubled, and a two-row buffer raises \<open>ValueError\<close>
  (\<open>corrupt_zero_rows\<close> has every buffer).
\<close>

theorem corrupt_zero_not_twice:
  "corrupt [[(1, 1, 1)]] 0 ''y'' = Inr (Some [[(1, 1, 1)]])
   \<and> corrupt [[(1, 1, 1)]] 0 ''y'' \<noteq> Inr (Some (twice [[(1, 1, 1)]]))
   \<and> corrupt [[(1, 1, 1)], [(1, 1, 1)]] 0 ''y'' = Inl ValueError"
  by (simp add: corrupt_def write_view_def subview_def whole_def read_view_def norm_index_def
      zeros_like_def add_buffer_def add_row_def twice_def Let_def)

subsection \<open>C4: a bounded orbit has color input 1\<close>

text \<open>
  Claim C4: with \<open>iter_limit > 0\<close>, for a coordinate whose orbit \<open>z \<leftarrow> z\<^sup>2 + c\<close> from
  \<open>z = c\<close> stays below \<open>bound_limit\<close> in magnitude for \<open>iter_limit\<close> steps (such as
  \<open>c = 0\<close>), the iteration count is \<open>iter_limit\<close> and the scalar passed to the gradient
  is exactly 1.
\<close>

theorem interior_color_input:
  assumes "0 < il" and "\<forall>k < nat il. cmod (orbit c k) < bl"
  shows "num_iterations bl il c = il \<and> color_input (num_iterations bl il c) il = Inr 1"
proof -
  have "mandelbrot_loop bl il c c 0 = il"
    using assms by (intro loop_bounded) (auto simp: orbit_def)
  then show ?thesis using assms(1) by (simp add: num_iterations_def color_input_def)
qed

theorem interior_color_input_witness:
  "0 < (100::int) \<and> cmod (orbit 0 99) < 2
   \<and> num_iterations 2 100 0 = 100 \<and> color_input (num_iterations 2 100 0) 100 = Inr 1"
proof -
  have h1: "0 < (100::int)" by simp
  have h2: "\<forall>k < nat 100. cmod (orbit 0 k) < 2" by (simp add: orbit_zero)
  have h3: "cmod (orbit 0 99) < 2" by (simp add: orbit_zero)
  from interior_color_input [OF h1 h2] h1 h3 show ?thesis by blast
qed

subsection \<open>C5: a coordinate that escapes at once\<close>

text \<open>
  Claim C5, as stated: with \<open>bound_limit = 2\<close>, the coordinate \<open>10 + 10i\<close> gives an
  iteration count of about 1 and a color input of about \<open>1 / iter_limit\<close>. With
  \<open>iter_limit = 1\<close> the count is 0 and the color input is 0, where the claim has 1 and 1.
\<close>

theorem immediate_escape_not_one:
  "num_iterations 2 1 (Complex 10 10) = 0 \<and> num_iterations 2 1 (Complex 10 10) \<noteq> 1
   \<and> color_input (num_iterations 2 1 (Complex 10 10)) 1 = Inr 0
   \<and> color_input (num_iterations 2 1 (Complex 10 10)) 1 \<noteq> Inr (1 / real_of_int 1)"
  by (simp add: escape_at_once [OF cmod_10_10] color_input_def)

text \<open>
  Claim C5, amended: with \<open>iter_limit > 0\<close>, a coordinate whose magnitude is at least
  \<open>bound_limit\<close> (such as \<open>10 + 10i\<close> with \<open>bound_limit = 2\<close>) never enters the loop: the
  iteration count is exactly 0 and the color input is exactly 0.
\<close>

theorem immediate_escape:
  assumes "0 < il" and "bl \<le> cmod c"
  shows "num_iterations bl il c = 0 \<and> color_input (num_iterations bl il c) il = Inr 0"
  using assms by (simp add: escape_at_once color_input_def)

theorem immediate_escape_witness:
  "0 < (100::int) \<and> 2 \<le> cmod (Complex 10 10)
   \<and> num_iterations 2 100 (Complex 10 10) = 0
   \<and> color_input (num_iterations 2 100 (Complex 10 10)) 100 = Inr 0"
proof -
  have h1: "0 < (100::int)" by simp
  from immediate_escape [OF h1 cmod_10_10] h1 cmod_10_10 show ?thesis by blast
qed

subsection \<open>C6: a gradient map of one colour\<close>

text \<open>
  Claim C6, as stated: for a map whose control points all have the colour \<open>(r, g, b)\<close>,
  \<open>gradient\<close> returns about \<open>(min(1, r), min(1, g), min(1, b))\<close> whatever \<open>x\<close> is. For
  the two grey points at 0 and 1, width 1 and spread 10, the result at \<open>x = 1/2\<close> is below
  \<open>1/50\<close> in every channel, where the claim has \<open>1/2\<close>.
\<close>

theorem gradient_flat_counterexample:
  "gradient (1/2) 1 grey_map 10 = Inr (exp (- 50), exp (- 50), exp (- 50))
   \<and> exp (- 50) < (1 / 50 :: real) \<and> min 1 (1/2) = (1/2 :: real)"
proof -
  have ne: "(1::real) \<noteq> 0" "(10::real) \<noteq> 0" "grey_map \<noteq> []" by (simp_all add: grey_map_def)
  have small: "exp (- 50) < (1::real)" using exp_minus_50 by simp
  have "gradient (1/2) 1 grey_map 10 = Inr (exp (- 50), exp (- 50), exp (- 50))"
    using small
    by (simp add: gradient_eq [OF ne] grey_points grey_bumps red_def green_def blue_def)
  then show ?thesis using exp_minus_50 by simp
qed

text \<open>
  Claim C6, amended: for \<open>width > 0\<close>, \<open>spread > 0\<close> and a map of at least two control
  points that all have the colour \<open>(r, g, b)\<close>, \<open>gradient\<close> returns
  \<open>(min(1, r * W), min(1, g * W), min(1, b * W))\<close>, where \<open>W\<close> is the sum of the
  unit-amplitude Gaussians of the control points at \<open>x\<close>, and \<open>W > 0\<close>.
\<close>

theorem gradient_flat:
  assumes "0 < width" "0 < spread" "2 \<le> length cmap"
    and "\<forall>p \<in> set cmap. snd p = (r, g, b)"
  shows "gradient x width cmap spread =
           Inr (min 1 (r * gauss_weight x width cmap spread),
                min 1 (g * gauss_weight x width cmap spread),
                min 1 (b * gauss_weight x width cmap spread))
         \<and> 0 < gauss_weight x width cmap spread"
proof -
  from assms have ne: "width \<noteq> 0" "spread \<noteq> 0" "cmap \<noteq> []" by auto
  have "sum_list (map (\<lambda>p. red (snd p) * gauss_bump x width cmap spread p) cmap)
        = r * gauss_weight x width cmap spread"
    unfolding gauss_weight_def using assms(4) by (intro channel_sum_const) (simp add: red_def)
  moreover have "sum_list (map (\<lambda>p. green (snd p) * gauss_bump x width cmap spread p) cmap)
        = g * gauss_weight x width cmap spread"
    unfolding gauss_weight_def using assms(4) by (intro channel_sum_const) (simp add: green_def)
  moreover have "sum_list (map (\<lambda>p. blue (snd p) * gauss_bump x width cmap spread p) cmap)
        = b * gauss_weight x width cmap spread"
    unfolding gauss_weight_def using assms(4) by (intro channel_sum_const) (simp add: blue_def)
  ultimately show ?thesis
    by (simp add: gradient_eq [OF ne] gauss_weight_pos [OF ne(3)])
qed

theorem gradient_flat_witness:
  "(0::real) < 1 \<and> (0::real) < 1 \<and> 2 \<le> length grey_map
   \<and> map snd grey_map = [(1/2, 1/2, 1/2), (1/2, 1/2, 1/2)]
   \<and> gradient (1/2) 1 grey_map 1 =
       Inr (min 1 (1/2 * gauss_weight (1/2) 1 grey_map 1),
            min 1 (1/2 * gauss_weight (1/2) 1 grey_map 1),
            min 1 (1/2 * gauss_weight (1/2) 1 grey_map 1))
   \<and> 0 < gauss_weight (1/2) 1 grey_map 1"
proof -
  have h: "(0::real) < 1" "2 \<le> length grey_map" "\<forall>p \<in> set grey_map. snd p = (1/2, 1/2, 1/2)"
    by (simp_all add: grey_map_def)
  have pts: "map snd grey_map = [(1/2, 1/2, 1/2), (1/2, 1/2, 1/2)]"
    by (simp add: grey_map_def)
  from gradient_flat [OF h(1) h(1) h(2) h(3), of "1/2"] h(1) h(2) pts show ?thesis by blast
qed

subsection \<open>C7: the two branches of corrupt agree\<close>

text \<open>
  Claim C7: for \<open>0 < offset < height\<close>, \<open>corrupt(src, offset, 'x')\<close> returns the same
  buffer as \<open>corrupt(src, offset, 'y')\<close>: both add to \<open>src\<close> its rows from \<open>offset\<close> on,
  followed by \<open>offset\<close> rows of zeros.
\<close>

theorem corrupt_axes_agree:
  assumes "0 < offset" and "offset < int (length src)"
  shows "corrupt src offset ''x'' = corrupt src offset ''y''
    \<and> corrupt src offset ''y''
        = Inr (Some (add_buffer src
            (drop (nat offset) src @ drop (length src - nat offset) (zeros_like src))))"
  using assms(1) by (simp add: corrupt_x_eq_y corrupt_y_eq)

theorem corrupt_axes_agree_witness:
  "(0::int) < 1 \<and> 1 < int (length quad)
   \<and> corrupt quad 1 ''x'' = corrupt quad 1 ''y''
   \<and> corrupt quad 1 ''y''
        = Inr (Some [[(5, 5, 5), (10, 10, 10)], [(4, 4, 4), (8, 8, 8)]])"
proof -
  have h: "(0::int) < 1" "1 < int (length quad)" by (simp_all add: quad_def)
  have "add_buffer quad (drop (nat 1) quad @ drop (length quad - nat 1) (zeros_like quad))
        = [[(5, 5, 5), (10, 10, 10)], [(4, 4, 4), (8, 8, 8)]]"
    by (simp add: quad_def zeros_like_def add_buffer_def add_row_def)
  then show ?thesis using corrupt_axes_agree [OF h] h by simp
qed

subsection \<open>C8: gradient channels lie in [0, 1]\<close>

text \<open>
  Claim C8: for \<open>width > 0\<close>, \<open>spread > 0\<close> and a map of at least two control points with
  colour channels in \<open>[0, 1]\<close>, \<open>gradient\<close> returns, and every channel of its result lies
  in \<open>[0, 1]\<close>.
\<close>

theorem gradient_range:
  assumes "0 < width" "0 < spread" "2 \<le> length cmap"
    and "\<forall>p \<in> set cmap. 0 \<le> red (snd p) \<and> red (snd p) \<le> 1 \<and> 0 \<le> green (snd p) \<and> green (snd p) \<le> 1
          \<and> 0 \<le> blue (snd p) \<and> blue (snd p) \<le> 1"
  shows "\<exists>r g b. gradient x width cmap spread = Inr (r, g, b)
          \<and> 0 \<le> r \<and> r \<le> 1 \<and> 0 \<le> g \<and> g \<le> 1 \<and> 0 \<le> b \<and> b \<le> 1"
proof -
  from assms have ne: "width \<noteq> 0" "spread \<noteq> 0" "cmap \<noteq> []" by auto
  have "0 \<le> sum_list (map (\<lambda>p. red (snd p) * gauss_bump x width cmap spread p) cmap)"
    using assms(4) by (intro channel_sum_nonneg) simp
  moreover have "0 \<le> sum_list (map (\<lambda>p. green (snd p) * gauss_bump x width cmap spread p) cmap)"
    using assms(4) by (intro channel_sum_nonneg) simp
  moreover have "0 \<le> sum_list (map (\<lambda>p. blue (snd p) * gauss_bump x width cmap spread p) cmap)"
    using assms(4) by (intro channel_sum_nonneg) simp
  ultimately show ?thesis
    by (simp add: gradient_eq [OF ne])
qed

theorem gradient_range_witness:
  "(0::real) < 1 \<and> (0::real) < 1 \<and> 2 \<le> length grey_map
   \<and> map snd grey_map = [(1/2, 1/2, 1/2), (1/2, 1/2, 1/2)]
   \<and> (\<exists>r g b. gradient (1/2) 1 grey_map 1 = Inr (r, g, b)
          \<and> 0 \<le> r \<and> r \<le> 1 \<and> 0 \<le> g \<and> g \<le> 1 \<and> 0 \<le> b \<and> b \<le> 1)"
proof -
  have h: "(0::real) < 1" "2 \<le> length grey_map"
    "\<forall>p \<in> set grey_map. 0 \<le> red (snd p) \<and> red (snd p) \<le> 1
         \<and> 0 \<le> green (snd p) \<and> green (snd p) \<le> 1
         \<and> 0 \<le> blue (snd p) \<and> blue (snd p) \<le> 1"
    by (simp_all add: grey_map_def red_def green_def blue_def)
  have pts: "map snd grey_map = [(1/2, 1/2, 1/2), (1/2, 1/2, 1/2)]"
    by (simp add: grey_map_def)
  from gradient_range [OF h(1) h(1) h(2) h(3), of "1/2"] h(1) h(2) pts show ?thesis by blast
qed

subsection \<open>C9: the coordinate of each pixel\<close>

text \<open>
  Claim C9: for \<open>height, width > 1\<close>, the \<open>generate(height, width)\<close> of each of the
  three generators returns a buffer of that shape whose pixel \<open>[j][i]\<close> is the one
  computed from sample \<open>i\<close> of \<open>width\<close> evenly spaced samples across the first pair of
  bounds (\<open>bounds_x\<close>, \<open>bounds_real\<close>) and sample \<open>j\<close> of \<open>height\<close> across the second
  (\<open>bounds_y\<close>, \<open>bounds_imag\<close>); pixel \<open>[0][0]\<close> is computed from the two lower bounds and
  pixel \<open>[height-1][width-1]\<close> from the two upper bounds. The Mandelbrot and Julia
  generators divide by \<open>iter_limit\<close>: when it is zero their \<open>generate\<close> raises
  \<open>ZeroDivisionError\<close> and there is no buffer.
\<close>

theorem coordinate_mapping:
  assumes "1 < height" and "1 < width"
  shows "(\<exists>pix. CustomFractal_generate cf height width = Inr pix
      \<and> rect (nat height) (nat width) pix
      \<and> (\<forall>j < nat height. \<forall>i < nat width.
            custom_pixel cf (sample (fst (bounds_x cf)) (snd (bounds_x cf)) (nat width) i)
              (sample (fst (bounds_y cf)) (snd (bounds_y cf)) (nat height) j)
            = Inr (pix ! j ! i))
      \<and> custom_pixel cf (fst (bounds_x cf)) (fst (bounds_y cf)) = Inr (pix ! 0 ! 0)
      \<and> custom_pixel cf (snd (bounds_x cf)) (snd (bounds_y cf))
          = Inr (pix ! (nat height - 1) ! (nat width - 1)))
   \<and> (if iter_limit mb = 0 then generate mb height width = Inl ZeroDivisionError
      else (\<exists>pix. generate mb height width = Inr pix
      \<and> rect (nat height) (nat width) pix
      \<and> (\<forall>j < nat height. \<forall>i < nat width.
            mandelbrot_pixel mb (sample (fst (bounds_real mb)) (snd (bounds_real mb)) (nat width) i)
              (sample (fst (bounds_imag mb)) (snd (bounds_imag mb)) (nat height) j)
            = Inr (pix ! j ! i))
      \<and> mandelbrot_pixel mb (fst (bounds_real mb)) (fst (bounds_imag mb)) = Inr (pix ! 0 ! 0)
      \<and> mandelbrot_pixel mb (snd (bounds_real mb)) (snd (bounds_imag mb))
          = Inr (pix ! (nat height - 1) ! (nat width - 1))))
   \<and> (if iter_limit jl = 0 then JuliaFractal_generate jl height width = Inl ZeroDivisionError
      else (\<exists>pix. JuliaFractal_generate jl height width = Inr pix
      \<and> rect (nat height) (nat width) pix
      \<and> (\<forall>j < nat height. \<forall>i < nat width.
            julia_pixel jl (sample (fst (bounds_real jl)) (snd (bounds_real jl)) (nat width) i)
              (sample (fst (bounds_imag jl)) (snd (bounds_imag jl)) (nat height) j)
            = Inr (pix ! j ! i))
      \<and> julia_pixel jl (fst (bounds_real jl)) (fst (bounds_imag jl)) = Inr (pix ! 0 ! 0)
      \<and> julia_pixel jl (snd (bounds_real jl)) (snd (bounds_imag jl))
          = Inr (pix ! (nat height - 1) ! (nat width - 1))))"
proof -
  have pos: "0 < height" "0 < width" using assms by simp_all
  have custom: "(\<exists>pix. CustomFractal_generate cf height width = Inr pix
    \<and> rect (nat height) (nat width) pix
    \<and> (\<forall>j < nat height. \<forall>i < nat width.
          custom_pixel cf (sample (fst (bounds_x cf)) (snd (bounds_x cf)) (nat width) i)
            (sample (fst (bounds_y cf)) (snd (bounds_y cf)) (nat height) j)
          = Inr (pix ! j ! i))
    \<and> custom_pixel cf (fst (bounds_x cf)) (fst (bounds_y cf)) = Inr (pix ! 0 ! 0)
    \<and> custom_pixel cf (snd (bounds_x cf)) (snd (bounds_y cf))
        = Inr (pix ! (nat height - 1) ! (nat width - 1)))"
    unfolding CustomFractal_generate_def
    by (rule pixel_loops_samples [where body = "custom_pixel cf", OF custom_pixel_total assms])
  have mandelbrot: "(\<exists>pix. generate mb height width = Inr pix
    \<and> rect (nat height) (nat width) pix
    \<and> (\<forall>j < nat height. \<forall>i < nat width.
          mandelbrot_pixel mb (sample (fst (bounds_real mb)) (snd (bounds_real mb)) (nat width) i)
            (sample (fst (bounds_imag mb)) (snd (bounds_imag mb)) (nat height) j)
          = Inr (pix ! j ! i))
    \<and> mandelbrot_pixel mb (fst (bounds_real mb)) (fst (bounds_imag mb)) = Inr (pix ! 0 ! 0)
    \<and> mandelbrot_pixel mb (snd (bounds_real mb)) (snd (bounds_imag mb))
        = Inr (pix ! (nat height - 1) ! (nat width - 1)))"
    if "iter_limit mb \<noteq> 0"
    unfolding generate_def
    by (rule pixel_loops_samples [where body = "mandelbrot_pixel mb", OF mandelbrot_pixel_total [OF that] assms])
  have julia: "(\<exists>pix. JuliaFractal_generate jl height width = Inr pix
    \<and> rect (nat height) (nat width) pix
    \<and> (\<forall>j < nat height. \<forall>i < nat width.
          julia_pixel jl (sample (fst (bounds_real jl)) (snd (bounds_real jl)) (nat width) i)
            (sample (fst (bounds_imag jl)) (snd (bounds_imag jl)) (nat height) j)
          = Inr (pix ! j ! i))
    \<and> julia_pixel jl (fst (bounds_real jl)) (fst (bounds_imag jl)) = Inr (pix ! 0 ! 0)
    \<and> julia_pixel jl (snd (bounds_real jl)) (snd (bounds_imag jl))
        = Inr (pix ! (nat height - 1) ! (nat width - 1)))"
    if "iter_limit jl \<noteq> 0"
    unfolding JuliaFractal_generate_def
    by (rule pixel_loops_samples [where body = "julia_pixel jl", OF julia_pixel_total [OF that] assms])
  have mandelbrot0: "generate mb height width = Inl ZeroDivisionError" if "iter_limit mb = 0"
    unfolding generate_def
    by (rule pixel_loops_fail [where body = "mandelbrot_pixel mb", OF mandelbrot_pixel_zero_limit [OF that] pos])
  have julia0: "JuliaFractal_generate jl height width = Inl ZeroDivisionError"
    if "iter_limit jl = 0"
    unfolding JuliaFractal_generate_def
    by (rule pixel_loops_fail [where body = "julia_pixel jl", OF julia_pixel_zero_limit [OF that] pos])
  show ?thesis
  proof (intro conjI)
    show "(\<exists>pix. CustomFractal_generate cf height width = Inr pix
      \<and> rect (nat height) (nat width) pix
      \<and> (\<forall>j < nat height. \<forall>i < nat width.
            custom_pixel cf (sample (fst (bounds_x cf)) (snd (bounds_x cf)) (nat width) i)
              (sample (fst (bounds_y cf)) (snd (bounds_y cf)) (nat height) j)
            = Inr (pix ! j ! i))
      \<and> custom_pixel cf (fst (bounds_x cf)) (fst (bounds_y cf)) = Inr (pix ! 0 ! 0)
      \<and> custom_pixel cf (snd (bounds_x cf)) (snd (bounds_y cf))
          = Inr (pix ! (nat height - 1) ! (nat width - 1)))" by (rule custom)
    show "if iter_limit mb = 0 then generate mb height width = Inl ZeroDivisionError
      else (\<exists>pix. generate mb height width = Inr pix
      \<and> rect (nat height) (nat width) pix
      \<and> (\<forall>j < nat height. \<forall>i < nat width.
            mandelbrot_pixel mb (sample (fst (bounds_real mb)) (snd (bounds_real mb)) (nat width) i)
              (sample (fst (bounds_imag mb)) (snd (bounds_imag mb)) (nat height) j)
            = Inr (pix ! j ! i))
      \<and> mandelbrot_pixel mb (fst (bounds_real mb)) (fst (bounds_imag mb)) = Inr (pix ! 0 ! 0)
      \<and> mandelbrot_pixel mb (snd (bounds_real mb)) (snd (bounds_imag mb))
          = Inr (pix ! (nat height - 1) ! (nat width - 1)))"
      using mandelbrot mandelbrot0 by (cases "iter_limit mb = 0") simp_all
    show "if iter_limit jl = 0 then JuliaFractal_generate jl height width = Inl ZeroDivisionError
      else (\<exists>pix. JuliaFractal_generate jl height width = Inr pix
      \<and> rect (nat height) (nat width) pix
      \<and> (\<forall>j < nat height. \<forall>i < nat width.
            julia_pixel jl (sample (fst (bounds_real jl)) (snd (bounds_real jl)) (nat width) i)
              (sample (fst (bounds_imag jl)) (snd (bounds_imag jl)) (nat height) j)
            = Inr (pix ! j ! i))
      \<and> julia_pixel jl (fst (bounds_real jl)) (fst (bounds_imag jl)) = Inr (pix ! 0 ! 0)
      \<and> julia_pixel jl (snd (bounds_real jl)) (snd (bounds_imag jl))
          = Inr (pix ! (nat height - 1) ! (nat width - 1)))"
      using julia julia0 by (cases "iter_limit jl = 0") simp_all
  qed
qed

theorem coordinate_mapping_witness:
  "(1::int) < 2 \<and> (1::int) < 3 \<and> iter_limit white_cfg = 1 \<and> iter_limit julia_cfg = 1
   \<and> (\<exists>pix. CustomFractal_generate custom_cfg 2 3 = Inr pix
      \<and> rect (nat 2) (nat 3) pix
      \<and> (\<forall>j < nat 2. \<forall>i < nat 3.
            custom_pixel custom_cfg (sample (fst (bounds_x custom_cfg)) (snd (bounds_x custom_cfg)) (nat 3) i)
              (sample (fst (bounds_y custom_cfg)) (snd (bounds_y custom_cfg)) (nat 2) j)
            = Inr (pix ! j ! i))
      \<and> custom_pixel custom_cfg (fst (bounds_x custom_cfg)) (fst (bounds_y custom_cfg)) = Inr (pix ! 0 ! 0)
      \<and> custom_pixel custom_cfg (snd (bounds_x custom_cfg)) (snd (bounds_y custom_cfg))
          = Inr (pix ! (nat 2 - 1) ! (nat 3 - 1)))
   \<and> (\<exists>pix. generate white_cfg 2 3 = Inr pix
      \<and> rect (nat 2) (nat 3) pix
      \<and> (\<forall>j < nat 2. \<forall>i < nat 3.
            mandelbrot_pixel white_cfg (sample (fst (bounds_real white_cfg)) (snd (bounds_real white_cfg)) (nat 3) i)
              (sample (fst (bounds_imag white_cfg)) (snd (bounds_imag white_cfg)) (nat 2) j)
            = Inr (pix ! j ! i))
      \<and> mandelbrot_pixel white_cfg (fst (bounds_real white_cfg)) (fst (bounds_imag white_cfg)) = Inr (pix ! 0 ! 0)
      \<and> mandelbrot_pixel white_cfg (snd (bounds_real white_cfg)) (snd (bounds_imag white_cfg))
          = Inr (pix ! (nat 2 - 1) ! (nat 3 - 1)))
   \<and> (\<exists>pix. JuliaFractal_generate julia_cfg 2 3 = Inr pix
      \<and> rect (nat 2) (nat 3) pix
      \<and> (\<forall>j < nat 2. \<forall>i < nat 3.
            julia_pixel julia_cfg (sample (fst (bounds_real julia_cfg)) (snd (bounds_real julia_cfg)) (nat 3) i)
              (sample (fst (bounds_imag julia_cfg)) (snd (bounds_imag julia_cfg)) (nat 2) j)
            = Inr (pix ! j ! i))
      \<and> julia_pixel julia_cfg (fst (bounds_real julia_cfg)) (fst (bounds_imag julia_cfg)) = Inr (pix ! 0 ! 0)
      \<and> julia_pixel julia_cfg (snd (bounds_real julia_cfg)) (snd (bounds_imag julia_cfg))
          = Inr (pix ! (nat 2 - 1) ! (nat 3 - 1)))"
proof -
  have il: "iter_limit white_cfg = 1" "iter_limit julia_cfg = 1"
    by (simp_all add: white_cfg_def julia_cfg_def)
  have h: "(1::int) < 2" "(1::int) < 3" by simp_all
  note all = coordinate_mapping [OF h, of custom_cfg white_cfg julia_cfg]
  from all have "(\<exists>pix. CustomFractal_generate custom_cfg 2 3 = Inr pix
    \<and> rect (nat 2) (nat 3) pix
    \<and> (\<forall>j < nat 2. \<forall>i < nat 3.
          custom_pixel custom_cfg (sample (fst (bounds_x custom_cfg)) (snd (bounds_x custom_cfg)) (nat 3) i)
            (sample (fst (bounds_y custom_cfg)) (snd (bounds_y custom_cfg)) (nat 2) j)
          = Inr (pix ! j ! i))
    \<and> custom_pixel custom_cfg (fst (bounds_x custom_cfg)) (fst (bounds_y custom_cfg)) = Inr (pix ! 0 ! 0)
    \<and> custom_pixel custom_cfg (snd (bounds_x custom_cfg)) (snd (bounds_y custom_cfg))
        = Inr (pix ! (nat 2 - 1) ! (nat 3 - 1)))"
    by (rule conjunct1)
  moreover from all il(1) have "(\<exists>pix. generate white_cfg 2 3 = Inr pix
    \<and> rect (nat 2) (nat 3) pix
    \<and> (\<forall>j < nat 2. \<forall>i < nat 3.
          mandelbrot_pixel white_cfg (sample (fst (bounds_real white_cfg)) (snd (bounds_real white_cfg)) (nat 3) i)
            (sample (fst (bounds_imag white_cfg)) (snd (bounds_imag white_cfg)) (nat 2) j)
          = Inr (pix ! j ! i))
    \<and> mandelbrot_pixel white_cfg (fst (bounds_real white_cfg)) (fst (bounds_imag white_cfg)) = Inr (pix ! 0 ! 0)
    \<and> mandelbrot_pixel white_cfg (snd (bounds_real white_cfg)) (snd (bounds_imag white_cfg))
        = Inr (pix ! (nat 2 - 1) ! (nat 3 - 1)))"
    by (simp only: if_False one_neq_zero)
  moreover from all il(2) have "(\<exists>pix. JuliaFractal_generate julia_cfg 2 3 = Inr pix
    \<and> rect (nat 2) (nat 3) pix
    \<and> (\<forall>j < nat 2. \<forall>i < nat 3.
          julia_pixel julia_cfg (sample (fst (bounds_real julia_cfg)) (snd (bounds_real julia_cfg)) (nat 3) i)
            (sample (fst (bounds_imag julia_cfg)) (snd (bounds_imag julia_cfg)) (nat 2) j)
          = Inr (pix ! j ! i))
    \<and> julia_pixel julia_cfg (fst (bounds_real julia_cfg)) (fst (bounds_imag julia_cfg)) = Inr (pix ! 0 ! 0)
    \<and> julia_pixel julia_cfg (snd (bounds_real julia_cfg)) (snd (bounds_imag julia_cfg))
        = Inr (pix ! (nat 2 - 1) ! (nat 3 - 1)))"
    by (simp only: if_False one_neq_zero)
  ultimately show ?thesis using il h by blast
qed

subsection \<open>C10: validation at construction\<close>

text \<open>
  Claim C10: constructing a Mandelbrot generator fails with an assertion error exactly
  when \<open>bounds_real\<close> or \<open>bounds_imag\<close> does not have two values or the colormap has
  fewer than two points; otherwise it succeeds, and the configuration holds the given
  bounds, limits and colormap.
\<close>

theorem construction_validation:
  "((\<exists>msg. MandelbrotFractal_init b_real b_imag b_limit i_limit cmap = Inl (AssertionError msg))
      \<longleftrightarrow> length b_real \<noteq> 2 \<or> length b_imag \<noteq> 2 \<or> length cmap < 2)
   \<and> ((\<exists>cfg. MandelbrotFractal_init b_real b_imag b_limit i_limit cmap = Inr cfg)
      \<longleftrightarrow> length b_real = 2 \<and> length b_imag = 2 \<and> 2 \<le> length cmap)
   \<and> (\<forall>cfg. MandelbrotFractal_init b_real b_imag b_limit i_limit cmap = Inr cfg \<longrightarrow>
         bounds_real cfg = (b_real ! 0, b_real ! 1) \<and> bounds_imag cfg = (b_imag ! 0, b_imag ! 1)
         \<and> bound_limit cfg = b_limit \<and> iter_limit cfg = i_limit \<and> colormap cfg = cmap)"
  by (auto simp: MandelbrotFractal_init_def)

theorem construction_validation_witness:
  "MandelbrotFractal_init [0, 1, 2] [0, 1] 2 1 white_map
     = Inl (AssertionError ''bounds_real must have two values'')
   \<and> MandelbrotFractal_init [0, 1] [0, 1] 2 1 [(0, (1, 1, 1))]
     = Inl (AssertionError ''colormap must have at least two points'')
   \<and> (\<exists>cfg. MandelbrotFractal_init [10, 11] [10, 11] 2 1 white_map = Inr cfg
          \<and> colormap cfg = white_map)"
proof -
  have "\<exists>cfg. MandelbrotFractal_init [10, 11] [10, 11] 2 1 white_map = Inr cfg"
    using construction_validation [of "[10, 11]" "[10, 11]" 2 1 white_map] by (simp add: white_map_def)
  then obtain cfg where c: "MandelbrotFractal_init [10, 11] [10, 11] 2 1 white_map = Inr cfg"
    by blast
  then have "colormap cfg = white_map"
    using construction_validation [of "[10, 11]" "[10, 11]" 2 1 white_map] by blast
  with c show ?thesis by (simp add: MandelbrotFractal_init_def)
qed

end
